theory Spec2Isabelle
  imports Main "HOL-Library.Word" "HOL-Library.AList" "HOL-Library.Sublist"
begin

section \<open>The interactive process tool (tools/interactive.js)\<close>

text \<open>
  The module keeps one global \<open>Map\<close> from session ids to session objects. Each session
  object owns a child process and the lines captured from its standard output and standard
  error. JavaScript runs the module's callbacks one at a time, so every function body and
  every callback below is one atomic step on the module's state; what happens between two
  steps (output arriving, a process exiting, a timer becoming due) is an event of the
  environment.
\<close>

subsection \<open>Constants\<close>

definition MAX_SESSIONS :: nat where
  "MAX_SESSIONS = 10"

definition MAX_OUTPUT_LINES :: nat where
  "MAX_OUTPUT_LINES = 1000"

definition CLEANUP_INTERVAL_MS :: nat where
  "CLEANUP_INTERVAL_MS = 5 * 60 * 1000"

subsection \<open>Strings and arrays\<close>

text \<open>\<open>data.split('\n')\<close>: the pieces between line feeds; never the empty array.\<close>

fun split_on :: "char \<Rightarrow> string \<Rightarrow> string \<Rightarrow> string list" where
  "split_on sep cur [] = [cur]"
| "split_on sep cur (c # cs) =
     (if c = sep then cur # split_on sep [] cs else split_on sep (cur @ [c]) cs)"

definition split_nl :: "string \<Rightarrow> string list" where
  "split_nl data = split_on (CHR 0x0A) [] data"

text \<open>\<open>lines.join('\n')\<close>.\<close>

fun join_nl :: "string list \<Rightarrow> string" where
  "join_nl [] = []"
| "join_nl [l] = l"
| "join_nl (l # ls) = l @ CHR 0x0A # join_nl ls"

text \<open>\<open>xs.slice(k)\<close> for \<open>k \<ge> 0\<close> and \<open>xs.slice(-n)\<close>.\<close>

definition slice_from :: "nat \<Rightarrow> 'a list \<Rightarrow> 'a list" where
  "slice_from k xs = drop k xs"

definition slice_last :: "nat \<Rightarrow> 'a list \<Rightarrow> 'a list" where
  "slice_last n xs = drop (length xs - n) xs"

subsection \<open>The child process handle\<close>

text \<open>
  Of Node's \<open>ChildProcess\<close> the module reads \<open>killed\<close> and \<open>exitCode\<close>, calls
  \<open>kill\<close> and writes to \<open>stdin\<close>. Node keeps a third field that the module never
  reads: when a child is terminated by a signal, \<open>exitCode\<close> stays \<open>null\<close> and
  \<open>signalCode\<close> names the signal. The handle is modelled with these three fields and two
  logs of what reached the operating system's process: the signals sent to it through the
  handle and the chunks handed to its standard input.
\<close>

datatype signal = SIGTERM | SIGKILL

record child_process =
  killed :: bool
  exitCode :: "int option"
  signalCode :: "signal option"
  signals :: "signal list"
  stdin :: "string list"

text \<open>The handle right after \<open>spawn\<close>.\<close>

definition spawn :: child_process where
  "spawn = \<lparr>killed = False, exitCode = None, signalCode = None, signals = [], stdin = []\<rparr>"

text \<open>The process has ended, with an exit code or by a signal.\<close>

definition ended :: "child_process \<Rightarrow> bool" where
  "ended p = (exitCode p \<noteq> None \<or> signalCode p \<noteq> None)"

text \<open>
  \<open>subprocess.kill(signal)\<close>: while the process has not ended the signal is sent and
  \<open>killed\<close> becomes true (the flag records that a signal was sent, not that the process is
  gone); on a process that has ended it does nothing.
\<close>

definition kill :: "signal \<Rightarrow> child_process \<Rightarrow> child_process" where
  "kill sig p =
     (if ended p then p else p\<lparr>killed := True, signals := signals p @ [sig]\<rparr>)"

text \<open>
  The two ways a process ends (the handle's \<open>exit\<close> bookkeeping): it exits with an exit
  code, or it is terminated by a signal, whoever sent it.
\<close>

definition exits :: "int \<Rightarrow> child_process \<Rightarrow> child_process" where
  "exits code p = (if ended p then p else p\<lparr>exitCode := Some code\<rparr>)"

definition signalled :: "signal \<Rightarrow> child_process \<Rightarrow> child_process" where
  "signalled sig p = (if ended p then p else p\<lparr>signalCode := Some sig\<rparr>)"

text \<open>
  The test the module applies to a handle before it treats the process as gone:
  \<open>p.killed || p.exitCode !== null\<close>. What it reports as \<open>is_running\<close> is the negation,
  \<open>p.exitCode === null && !p.killed\<close>.
\<close>

definition is_dead :: "child_process \<Rightarrow> bool" where
  "is_dead p = (killed p \<or> exitCode p \<noteq> None)"

subsection \<open>Sessions and the output buffer\<close>

record session =
  process :: child_process
  "output" :: "string list"
  started :: nat
  command :: string
  cwd :: string

text \<open>
  \<open>addOutput\<close>, the \<open>data\<close> handler of both stdout and stderr: push the lines of the chunk,
  then keep the last \<open>MAX_OUTPUT_LINES\<close> lines if there are more.
\<close>

definition addOutput :: "session \<Rightarrow> string \<Rightarrow> session" where
  "addOutput s data =
     (let lines = split_nl data;
          pushed = output s @ lines
      in if length pushed > MAX_OUTPUT_LINES
         then s\<lparr>output := slice_last MAX_OUTPUT_LINES pushed\<rparr>
         else s\<lparr>output := pushed\<rparr>)"


subsection \<open>Results\<close>

text \<open>
  \<open>createError(code, message, details)\<close> builds \<open>{error: true, code, message, details}\<close>;
  the details object of this module holds one string under one key. A success is
  \<open>{session_id, output, is_running}\<close>, or \<open>{sessions: [...]}\<close> for \<open>list\<close>, each entry
  with the id, the command, the start time (kept as the clock reading, not rendered as an
  ISO string), the running state and the number of buffered lines.
\<close>

datatype session_info = SessionInfo string string nat bool nat

datatype result =
    Failure string string "(string \<times> string) option"
  | Reply string string bool
  | SessionList "session_info list"

definition createError :: "string \<Rightarrow> string \<Rightarrow> (string \<times> string) option \<Rightarrow> result" where
  "createError code message details = Failure code message details"

fun code :: "result \<Rightarrow> string option" where
  "code (Failure c m d) = Some c"
| "code (Reply i out r) = None"
| "code (SessionList l) = None"

subsection \<open>Session ids\<close>

text \<open>
  \<open>generateSessionId\<close> is \<open>randomBytes(4).toString('hex')\<close>: two lower-case hexadecimal
  digits for each of the four bytes. The bytes drawn are an input of the model.
\<close>

type_synonym bytes4 = "8 word \<times> 8 word \<times> 8 word \<times> 8 word"

definition hex_digit :: "nat \<Rightarrow> char" where
  "hex_digit n = ''0123456789abcdef'' ! (n mod 16)"

definition hex_byte :: "8 word \<Rightarrow> string" where
  "hex_byte b = [hex_digit (unat b div 16), hex_digit (unat b mod 16)]"

fun generateSessionId :: "bytes4 \<Rightarrow> string" where
  "generateSessionId (b0, b1, b2, b3) = hex_byte b0 @ hex_byte b1 @ hex_byte b2 @ hex_byte b3"

subsection \<open>The module's state\<close>

text \<open>
  Session objects are shared: the \<open>Map\<close> holds a reference to each, and so do the closures
  of the calls in progress, which go on reading an object after it has left the \<open>Map\<close>.
  The state therefore has a heap of session objects (a reference is an index; objects are
  never freed) and the \<open>Map\<close> as an association list from ids to references, in insertion
  order with one entry per key: \<open>sessions.set\<close> is \<open>AList.update\<close>, \<open>sessions.delete\<close>
  is \<open>AList.delete\<close>, \<open>sessions.get\<close> is \<open>map_of\<close>, \<open>sessions.size\<close> the length.

  A call in progress is either waiting for a timer or for the callback of \<open>stdin.write\<close>.
  A pending timer carries what its closure captured:
  \<^item> \<open>StartSettle call sessionId child\<close>: the 500 ms timer of \<open>startProcess\<close>;
  \<^item> \<open>WriteSettle call sessionId session outputBefore\<close>: the 300 ms timer of
    \<open>writeToProcess\<close>;
  \<^item> \<open>ReadPoll call sessionId session outputBefore startTime timeoutMs\<close>: the 100 ms timer
    of \<open>checkOutput\<close> in \<open>readFromProcess\<close>;
  \<^item> \<open>KillEscalate session\<close>: the 1000 ms timer of \<open>killProcess\<close>.
  Every call of \<open>processInteractive\<close> gets the next call number; \<open>settled\<close> lists the
  values passed to \<open>resolve\<close> (or returned) for each call, in the order they were passed,
  and the promise of a call takes the first.
\<close>

datatype timer =
    StartSettle nat string nat
  | WriteSettle nat string nat nat
  | ReadPoll nat string nat nat nat int
  | KillEscalate nat

record state =
  heap :: "session list"
  spawned_by :: "nat list"
  sessions :: "(string \<times> nat) list"
  timers :: "(nat \<times> timer) list"
  writes :: "(nat \<times> string \<times> nat \<times> nat) list"
  clock :: nat
  settled :: "(nat \<times> result) list"
  calls :: nat

definition init :: state where
  "init = \<lparr>heap = [], spawned_by = [], sessions = [], timers = [], writes = [],
           clock = 0, settled = [], calls = 0\<rparr>"

definition resolve :: "nat \<Rightarrow> result \<Rightarrow> state \<Rightarrow> state" where
  "resolve call r st = st\<lparr>settled := settled st @ [(call, r)]\<rparr>"

definition promise :: "state \<Rightarrow> nat \<Rightarrow> result option" where
  "promise st call = map_of (settled st) call"

definition setTimeout :: "timer \<Rightarrow> nat \<Rightarrow> state \<Rightarrow> state" where
  "setTimeout callback ms st = st\<lparr>timers := timers st @ [(clock st + ms, callback)]\<rparr>"

definition set_process :: "nat \<Rightarrow> child_process \<Rightarrow> state \<Rightarrow> state" where
  "set_process r p st = st\<lparr>heap := (heap st)[r := (heap st ! r)\<lparr>process := p\<rparr>]\<rparr>"

text \<open>
  The helpers of utils/paths.js read the environment and the file system's conventions;
  they are parameters of the model.
\<close>

record host =
  normalizePath :: "string \<Rightarrow> string"
  getHomeDir :: string

subsection \<open>start\<close>

text \<open>
  \<open>startProcess\<close> up to the end of the promise's executor: the limit check, the working
  directory, the id, the spawn, the session object with its handlers, and the 500 ms timer.
  The command line is split into an executable and arguments only to be handed to \<open>spawn\<close>.
\<close>

definition startProcess :: "host \<Rightarrow> nat \<Rightarrow> bytes4 \<Rightarrow> string \<Rightarrow> string option \<Rightarrow> state \<Rightarrow> state" where
  "startProcess h call randomBytes command_line cwd_opt st =
     (if length (sessions st) \<ge> MAX_SESSIONS
      then resolve call
             (createError ''LIMIT_EXCEEDED'' ''Maximum 10 sessions allowed. Kill some first.'' None) st
      else
        let workingDir = (case cwd_opt of
                            None \<Rightarrow> getHomeDir h
                          | Some d \<Rightarrow> if d = [] then getHomeDir h else normalizePath h d);
            sessionId = generateSessionId randomBytes;
            child = length (heap st);
            session = \<lparr>process = spawn, output = [], started = clock st,
                       command = command_line, cwd = workingDir\<rparr>
        in setTimeout (StartSettle call sessionId child) 500
             (st\<lparr>heap := heap st @ [session], spawned_by := spawned_by st @ [call]\<rparr>))"

text \<open>The callback of the 500 ms timer.\<close>

definition startProcess_settle :: "nat \<Rightarrow> string \<Rightarrow> nat \<Rightarrow> state \<Rightarrow> state" where
  "startProcess_settle call sessionId child st =
     (let session = heap st ! child
      in if killed (process session) \<or> exitCode (process session) \<noteq> None
         then resolve call
                (createError ''PROCESS_DIED'' ''Process exited immediately''
                   (Some (''output'', join_nl (output session)))) st
         else resolve call (Reply sessionId (join_nl (output session)) True)
                (st\<lparr>sessions := AList.update sessionId child (sessions st)\<rparr>))"

text \<open>The \<open>error\<close> handler of the child.\<close>

definition startProcess_error :: "nat \<Rightarrow> string \<Rightarrow> state \<Rightarrow> state" where
  "startProcess_error child message st =
     resolve (spawned_by st ! child)
       (createError ''PROCESS_ERROR'' (''Failed to start: '' @ message) None) st"

subsection \<open>write\<close>

text \<open>\<open>writeToProcess\<close> up to the call of \<open>stdin.write\<close>.\<close>

definition writeToProcess :: "nat \<Rightarrow> string \<Rightarrow> string \<Rightarrow> state \<Rightarrow> state" where
  "writeToProcess call sessionId input_text st =
     (case map_of (sessions st) sessionId of
        None \<Rightarrow>
          resolve call
            (createError ''SESSION_NOT_FOUND'' (''Session '' @ sessionId @ '' not found'') None) st
      | Some r \<Rightarrow>
          let session = heap st ! r
          in if killed (process session) \<or> exitCode (process session) \<noteq> None
             then resolve call
                    (createError ''PROCESS_DIED'' ''Process is no longer running''
                       (Some (''final_output'', join_nl (output session))))
                    (st\<lparr>sessions := AList.delete sessionId (sessions st)\<rparr>)
             else
               let outputBefore = length (output session);
                   p = process session
               in (set_process r (p\<lparr>stdin := stdin p @ [input_text]\<rparr>) st)
                    \<lparr>writes := writes st @ [(call, sessionId, r, outputBefore)]\<rparr>)"

text \<open>The callback of \<open>stdin.write\<close>, with the error it is passed if the write failed.\<close>

definition writeToProcess_written ::
  "nat \<Rightarrow> string \<Rightarrow> nat \<Rightarrow> nat \<Rightarrow> string option \<Rightarrow> state \<Rightarrow> state" where
  "writeToProcess_written call sessionId r outputBefore err st =
     (case err of
        Some message \<Rightarrow>
          resolve call (createError ''WRITE_ERROR'' (''Failed to write: '' @ message) None) st
      | None \<Rightarrow> setTimeout (WriteSettle call sessionId r outputBefore) 300 st)"

text \<open>The callback of the 300 ms timer.\<close>

definition writeToProcess_settle :: "nat \<Rightarrow> string \<Rightarrow> nat \<Rightarrow> nat \<Rightarrow> state \<Rightarrow> state" where
  "writeToProcess_settle call sessionId r outputBefore st =
     (let session = heap st ! r;
          newOutput = join_nl (slice_from outputBefore (output session))
      in resolve call
           (Reply sessionId newOutput
              (exitCode (process session) = None \<and> \<not> killed (process session))) st)"

subsection \<open>read\<close>

text \<open>\<open>checkOutput\<close>: called once by \<open>readFromProcess\<close> itself and then by its own timer.\<close>

definition checkOutput :: "nat \<Rightarrow> string \<Rightarrow> nat \<Rightarrow> nat \<Rightarrow> nat \<Rightarrow> int \<Rightarrow> state \<Rightarrow> state" where
  "checkOutput call sessionId r outputBefore startTime timeoutMs st =
     (let session = heap st ! r;
          newOutput = slice_from outputBefore (output session);
          elapsed = int (clock st) - int startTime;
          isRunning = (exitCode (process session) = None \<and> \<not> killed (process session))
      in if length newOutput > 0 \<or> \<not> isRunning \<or> elapsed \<ge> timeoutMs
         then resolve call (Reply sessionId (join_nl newOutput) isRunning) st
         else setTimeout (ReadPoll call sessionId r outputBefore startTime timeoutMs) 100 st)"

definition readFromProcess :: "nat \<Rightarrow> string \<Rightarrow> int option \<Rightarrow> state \<Rightarrow> state" where
  "readFromProcess call sessionId timeout_opt st =
     (let timeoutMs = (case timeout_opt of None \<Rightarrow> 5000 | Some t \<Rightarrow> t)
      in case map_of (sessions st) sessionId of
           None \<Rightarrow>
             resolve call
               (createError ''SESSION_NOT_FOUND'' (''Session '' @ sessionId @ '' not found'') None) st
         | Some r \<Rightarrow>
             let outputBefore = length (output (heap st ! r));
                 startTime = clock st
             in checkOutput call sessionId r outputBefore startTime timeoutMs st)"

subsection \<open>kill\<close>

definition killProcess :: "nat \<Rightarrow> string \<Rightarrow> state \<Rightarrow> state" where
  "killProcess call sessionId st =
     (case map_of (sessions st) sessionId of
        None \<Rightarrow>
          resolve call
            (createError ''SESSION_NOT_FOUND'' (''Session '' @ sessionId @ '' not found'') None) st
      | Some r \<Rightarrow>
          let session = heap st ! r;
              finalOutput = join_nl (output session);
              st1 = (if \<not> killed (process session) \<and> exitCode (process session) = None
                     then setTimeout (KillEscalate r) 1000
                            (set_process r (kill SIGTERM (process session)) st)
                     else st)
          in resolve call (Reply sessionId finalOutput False)
               (st1\<lparr>sessions := AList.delete sessionId (sessions st1)\<rparr>))"

text \<open>The callback of the 1000 ms timer.\<close>

definition killProcess_escalate :: "nat \<Rightarrow> state \<Rightarrow> state" where
  "killProcess_escalate r st =
     (let session = heap st ! r
      in if \<not> killed (process session)
         then set_process r (kill SIGKILL (process session)) st
         else st)"

subsection \<open>list and the periodic cleanup\<close>

definition listSessions :: "nat \<Rightarrow> state \<Rightarrow> state" where
  "listSessions call st =
     resolve call
       (SessionList
          (map (\<lambda>(id, r).
                  let session = heap st ! r
                  in SessionInfo id (command session) (started session)
                       (exitCode (process session) = None \<and> \<not> killed (process session))
                       (length (output session)))
             (sessions st))) st"

text \<open>
  The callback of \<open>setInterval(..., CLEANUP_INTERVAL_MS)\<close>: every entry whose process is
  killed or has an exit code is deleted.
\<close>

definition cleanup :: "state \<Rightarrow> state" where
  "cleanup st =
     st\<lparr>sessions :=
          fold (\<lambda>(id, r) al.
                  if killed (process (heap st ! r)) \<or> exitCode (process (heap st ! r)) \<noteq> None
                  then AList.delete id al else al)
            (sessions st) (sessions st)\<rparr>"

subsection \<open>The entry point\<close>

text \<open>
  The parameters as the tool's schema admits them: \<open>action\<close> is a string, every other
  field is optional. \<open>!command\<close> and \<open>!session_id\<close> hold for an absent field and for the
  empty string; \<open>input === undefined\<close> holds for an absent field only.
\<close>

record params =
  action :: string
  command_arg :: "string option"
  cwd_arg :: "string option"
  session_id :: "string option"
  input :: "string option"
  timeout_ms :: "int option"

definition invalid_params :: "nat \<Rightarrow> string \<Rightarrow> state \<Rightarrow> state" where
  "invalid_params call message st = resolve call (createError ''INVALID_PARAMS'' message None) st"

definition processInteractive :: "host \<Rightarrow> params \<Rightarrow> bytes4 \<Rightarrow> state \<Rightarrow> state" where
  "processInteractive h p randomBytes st0 =
     (let call = calls st0;
          st = st0\<lparr>calls := Suc call\<rparr>
      in if action p = ''start'' then
           (case command_arg p of
              None \<Rightarrow> invalid_params call ''Command required for start action'' st
            | Some c \<Rightarrow>
                if c = [] then invalid_params call ''Command required for start action'' st
                else startProcess h call randomBytes c (cwd_arg p) st)
         else if action p = ''write'' then
           (case session_id p of
              None \<Rightarrow> invalid_params call ''session_id required for write action'' st
            | Some i \<Rightarrow>
                if i = [] then invalid_params call ''session_id required for write action'' st
                else (case input p of
                        None \<Rightarrow> invalid_params call ''input required for write action'' st
                      | Some text \<Rightarrow> writeToProcess call i text st))
         else if action p = ''read'' then
           (case session_id p of
              None \<Rightarrow> invalid_params call ''session_id required for read action'' st
            | Some i \<Rightarrow>
                if i = [] then invalid_params call ''session_id required for read action'' st
                else readFromProcess call i (timeout_ms p) st)
         else if action p = ''kill'' then
           (case session_id p of
              None \<Rightarrow> invalid_params call ''session_id required for kill action'' st
            | Some i \<Rightarrow>
                if i = [] then invalid_params call ''session_id required for kill action'' st
                else killProcess call i st)
         else if action p = ''list'' then listSessions call st
         else invalid_params call (''Unknown action: '' @ action p) st)"

subsection \<open>The event loop\<close>

text \<open>
  What can happen next, one callback at a time:
  \<^item> \<open>Call p bytes\<close>: \<open>processInteractive(p)\<close> is called; \<open>bytes\<close> is what \<open>randomBytes(4)\<close>
    returns if the call draws an id;
  \<^item> \<open>Timer i\<close>: the \<open>i\<close>-th pending timer fires (only once its delay has passed);
  \<^item> \<open>Written i err\<close>: the \<open>i\<close>-th pending \<open>stdin.write\<close> completes, with an error or not;
  \<^item> \<open>Data r chunk\<close>: the child of session object \<open>r\<close> produces a chunk on stdout or stderr;
  \<^item> \<open>Exited r c\<close>: that child exits with exit code \<open>c\<close>;
  \<^item> \<open>Signalled r sig\<close>: that child is terminated by the signal \<open>sig\<close>;
  \<^item> \<open>SpawnFailed r errno message\<close>: spawning that child failed; Node records the negative
    \<open>errno\<close> as the exit code and then emits \<open>error\<close>;
  \<^item> \<open>Cleanup\<close>: the periodic sweep runs;
  \<^item> \<open>Elapse n\<close>: \<open>n\<close> milliseconds pass.
\<close>

datatype event =
    Call params bytes4
  | Timer nat
  | Written nat "string option"
  | Data nat string
  | Exited nat int
  | Signalled nat signal
  | SpawnFailed nat int string
  | Cleanup
  | Elapse nat

definition remove_nth :: "nat \<Rightarrow> 'a list \<Rightarrow> 'a list" where
  "remove_nth i xs = take i xs @ drop (Suc i) xs"

fun fire :: "timer \<Rightarrow> state \<Rightarrow> state" where
  "fire (StartSettle call sessionId child) st = startProcess_settle call sessionId child st"
| "fire (WriteSettle call sessionId r outputBefore) st =
     writeToProcess_settle call sessionId r outputBefore st"
| "fire (ReadPoll call sessionId r outputBefore startTime timeoutMs) st =
     checkOutput call sessionId r outputBefore startTime timeoutMs st"
| "fire (KillEscalate r) st = killProcess_escalate r st"

fun step :: "host \<Rightarrow> state \<Rightarrow> event \<Rightarrow> state" where
  "step h st (Call p randomBytes) = processInteractive h p randomBytes st"
| "step h st (Timer i) =
     (if i < length (timers st) \<and> fst (timers st ! i) \<le> clock st
      then fire (snd (timers st ! i)) (st\<lparr>timers := remove_nth i (timers st)\<rparr>)
      else st)"
| "step h st (Written i err) =
     (if i < length (writes st)
      then (case writes st ! i of
              (call, sessionId, r, outputBefore) \<Rightarrow>
                writeToProcess_written call sessionId r outputBefore err
                  (st\<lparr>writes := remove_nth i (writes st)\<rparr>))
      else st)"
| "step h st (Data r chunk) =
     (if r < length (heap st) then st\<lparr>heap := (heap st)[r := addOutput (heap st ! r) chunk]\<rparr>
      else st)"
| "step h st (Exited r c) =
     (if r < length (heap st) then set_process r (exits c (process (heap st ! r))) st else st)"
| "step h st (Signalled r sig) =
     (if r < length (heap st) then set_process r (signalled sig (process (heap st ! r))) st
      else st)"
| "step h st (SpawnFailed r errno message) =
     (if r < length (heap st)
      then startProcess_error r message (set_process r (exits errno (process (heap st ! r))) st)
      else st)"
| "step h st Cleanup = cleanup st"
| "step h st (Elapse n) = st\<lparr>clock := clock st + n\<rparr>"

definition run :: "host \<Rightarrow> state \<Rightarrow> event list \<Rightarrow> state" where
  "run h st evs = foldl (step h) st evs"

subsection \<open>The output of one child\<close>


subsection \<open>Example inputs\<close>

definition example_host :: host where
  "example_host = \<lparr>normalizePath = (\<lambda>p. p), getHomeDir = ''C:/Users/me''\<rparr>"

definition start_params :: "string \<Rightarrow> params" where
  "start_params c = \<lparr>action = ''start'', command_arg = Some c, cwd_arg = None,
                     session_id = None, input = None, timeout_ms = None\<rparr>"

definition write_params :: "string \<Rightarrow> string \<Rightarrow> params" where
  "write_params i text = \<lparr>action = ''write'', command_arg = None, cwd_arg = None,
                          session_id = Some i, input = Some text, timeout_ms = None\<rparr>"

definition read_params :: "string \<Rightarrow> int option \<Rightarrow> params" where
  "read_params i t = \<lparr>action = ''read'', command_arg = None, cwd_arg = None,
                      session_id = Some i, input = None, timeout_ms = t\<rparr>"

definition kill_params :: "string \<Rightarrow> params" where
  "kill_params i = \<lparr>action = ''kill'', command_arg = None, cwd_arg = None,
                    session_id = Some i, input = None, timeout_ms = None\<rparr>"

text \<open>One running session, registered under \<open>00000001\<close>, 500 ms after the call.\<close>

definition one_session :: "event list" where
  "one_session = [Call (start_params ''python -u -i'') (0, 0, 0, 1), Elapse 500, Timer 0]"

subsection \<open>Predicates used in the proofs\<close>

text \<open>The child of session object \<open>r\<close> exists and fails the module's liveness test.\<close>

definition dead_child :: "nat \<Rightarrow> state \<Rightarrow> bool" where
  "dead_child r st = (r < length (heap st) \<and> is_dead (process (heap st ! r)))"

text \<open>Session object \<open>r\<close> exists and its buffer is \<open>B\<close>.\<close>

definition buffer_is :: "nat \<Rightarrow> string list \<Rightarrow> state \<Rightarrow> bool" where
  "buffer_is r B st = (r < length (heap st) \<and> output (heap st ! r) = B)"

section \<open>Properties\<close>

lemmas evals = run_def init_def example_host_def start_params_def write_params_def read_params_def
  kill_params_def one_session_def processInteractive_def startProcess_def startProcess_settle_def
  startProcess_error_def writeToProcess_def writeToProcess_written_def writeToProcess_settle_def
  checkOutput_def readFromProcess_def killProcess_def killProcess_escalate_def listSessions_def
  cleanup_def invalid_params_def resolve_def setTimeout_def set_process_def createError_def
  remove_nth_def spawn_def kill_def exits_def signalled_def ended_def MAX_SESSIONS_def Let_def hex_byte_def hex_digit_def
  promise_def addOutput_def slice_from_def slice_last_def MAX_OUTPUT_LINES_def

subsection \<open>The output buffer\<close>

lemma output_addOutput:
  "output (addOutput s data) = slice_last MAX_OUTPUT_LINES (output s @ split_nl data)"
  by (simp add: addOutput_def Let_def slice_last_def)

lemma slice_last_append:
  "slice_last n (slice_last n xs @ ys) = slice_last n (xs @ ys)"
proof (cases "length xs \<le> n")
  case True
  then show ?thesis by (simp add: slice_last_def)
next
  case False
  then show ?thesis by (simp add: slice_last_def add.commute)
qed

lemma slice_last_short: "length xs \<le> n \<Longrightarrow> slice_last n xs = xs"
  by (simp add: slice_last_def)

lemma length_slice_last: "length (slice_last n xs) = min n (length xs)"
  by (simp add: slice_last_def)

lemma slice_foldl_addOutput:
  "slice_last MAX_OUTPUT_LINES (output (foldl addOutput s chunks)) =
     slice_last MAX_OUTPUT_LINES (output s @ concat (map split_nl chunks))"
proof (induction chunks arbitrary: s)
  case Nil
  show ?case by simp
next
  case (Cons d ds)
  have "slice_last MAX_OUTPUT_LINES (output (foldl addOutput s (d # ds))) =
      slice_last MAX_OUTPUT_LINES (output (addOutput s d) @ concat (map split_nl ds))"
    using Cons.IH [of "addOutput s d"] by simp
  also have "\<dots> = slice_last MAX_OUTPUT_LINES ((output s @ split_nl d) @ concat (map split_nl ds))"
    unfolding output_addOutput by (rule slice_last_append)
  finally show ?case by simp
qed

lemma length_foldl_addOutput:
  "length (output s) \<le> MAX_OUTPUT_LINES \<Longrightarrow> length (output (foldl addOutput s chunks)) \<le> MAX_OUTPUT_LINES"
  by (induction chunks arbitrary: s) (simp_all add: output_addOutput length_slice_last)

text \<open>
  Claim C5. Whatever the buffer held and whatever chunk arrives, \<open>addOutput\<close> is a total
  function (an append cannot block or fail), the buffer it leaves has at most 1000 lines,
  and the old buffer followed by the lines of the chunk is what was dropped followed by
  what was kept: only the oldest lines go, the rest keep their order. Over any sequence
  of chunks appended to a fresh session the buffer is the last 1000 lines of everything
  appended.
\<close>

theorem addOutput_bounded_fifo:
  "length (output (addOutput s data)) = min MAX_OUTPUT_LINES (length (output s) + length (split_nl data))
   \<and> length (output (addOutput s data)) \<le> 1000
   \<and> output s @ split_nl data
       = take (length (output s) + length (split_nl data) - MAX_OUTPUT_LINES) (output s @ split_nl data)
         @ output (addOutput s data)
   \<and> output (foldl addOutput (s\<lparr>output := []\<rparr>) chunks)
       = slice_last MAX_OUTPUT_LINES (concat (map split_nl chunks))
   \<and> length (output (foldl addOutput (s\<lparr>output := []\<rparr>) chunks)) \<le> 1000"
proof -
  have a: "length (output (addOutput s data))
      = min MAX_OUTPUT_LINES (length (output s) + length (split_nl data))"
    by (simp add: output_addOutput length_slice_last)
  have a': "length (output (addOutput s data)) \<le> 1000"
    unfolding a by (simp add: MAX_OUTPUT_LINES_def)
  have b: "output s @ split_nl data
       = take (length (output s) + length (split_nl data) - MAX_OUTPUT_LINES) (output s @ split_nl data)
         @ output (addOutput s data)"
    unfolding output_addOutput slice_last_def length_append
    by (rule append_take_drop_id [symmetric])
  have l: "length (output (foldl addOutput (s\<lparr>output := []\<rparr>) chunks)) \<le> MAX_OUTPUT_LINES"
    by (rule length_foldl_addOutput) simp
  have c: "output (foldl addOutput (s\<lparr>output := []\<rparr>) chunks)
       = slice_last MAX_OUTPUT_LINES (concat (map split_nl chunks))"
    using slice_foldl_addOutput [of "s\<lparr>output := []\<rparr>" chunks] slice_last_short [OF l]
    by simp
  have d: "length (output (foldl addOutput (s\<lparr>output := []\<rparr>) chunks)) \<le> 1000"
    using l by (simp add: MAX_OUTPUT_LINES_def)
  from a a' b c d show ?thesis by blast
qed


subsection \<open>What each callback does to the Map\<close>

lemma sessions_resolve [simp]: "sessions (resolve call r st) = sessions st"
  by (simp add: resolve_def)

lemma sessions_setTimeout [simp]: "sessions (setTimeout t ms st) = sessions st"
  by (simp add: setTimeout_def)

lemma sessions_set_process [simp]: "sessions (set_process r p st) = sessions st"
  by (simp add: set_process_def)

lemma sessions_invalid_params [simp]: "sessions (invalid_params call m st) = sessions st"
  by (simp add: invalid_params_def)

lemma sessions_startProcess [simp]: "sessions (startProcess h call b c d st) = sessions st"
  by (simp add: startProcess_def Let_def)

lemma sessions_startProcess_error [simp]: "sessions (startProcess_error r m st) = sessions st"
  by (simp add: startProcess_error_def)

lemma sessions_checkOutput [simp]: "sessions (checkOutput call i r ob t0 tmo st) = sessions st"
  by (simp add: checkOutput_def Let_def)

lemma sessions_readFromProcess [simp]: "sessions (readFromProcess call i t st) = sessions st"
  by (simp add: readFromProcess_def Let_def split: option.splits)

lemma sessions_listSessions [simp]: "sessions (listSessions call st) = sessions st"
  by (simp add: listSessions_def)

lemma sessions_written [simp]: "sessions (writeToProcess_written call i r ob err st) = sessions st"
  by (simp add: writeToProcess_written_def split: option.splits)

lemma sessions_write_settle [simp]: "sessions (writeToProcess_settle call i r ob st) = sessions st"
  by (simp add: writeToProcess_settle_def Let_def)

lemma sessions_escalate [simp]: "sessions (killProcess_escalate r st) = sessions st"
  by (simp add: killProcess_escalate_def Let_def)

lemma sessions_writeToProcess:
  "sessions (writeToProcess call i text st) =
     (case map_of (sessions st) i of
        None \<Rightarrow> sessions st
      | Some r \<Rightarrow> if is_dead (process (heap st ! r)) then AList.delete i (sessions st)
                  else sessions st)"
  by (simp add: writeToProcess_def is_dead_def Let_def split: option.splits)

lemma sessions_killProcess:
  "sessions (killProcess call i st) = AList.delete i (sessions st)"
proof (cases "map_of (sessions st) i")
  case None
  then have "i \<notin> fst ` set (sessions st)"
    by (simp add: map_of_eq_None_iff)
  with None show ?thesis
    by (simp add: killProcess_def)
next
  case (Some r)
  then show ?thesis
    by (simp add: killProcess_def Let_def)
qed

lemma keys_startProcess_settle:
  "fst ` set (sessions st) \<subseteq> fst ` set (sessions (startProcess_settle call i child st))"
  by (auto simp add: startProcess_settle_def Let_def AList.dom_update)

lemma keys_fire: "fst ` set (sessions st) \<subseteq> fst ` set (sessions (fire t st))"
  using keys_startProcess_settle by (cases t) auto

lemma keys_sweep:
  "fst ` set (fold (\<lambda>(id, r) al. if P r then AList.delete id al else al) xs al)
     = fst ` set al - {id. \<exists>r. (id, r) \<in> set xs \<and> P r}"
proof (induction xs arbitrary: al)
  case Nil
  show ?case by simp
next
  case (Cons x xs)
  obtain id r where x: "x = (id, r)" by (cases x)
  show ?case
  proof (cases "P r")
    case True
    have "fst ` set (AList.delete id al) = fst ` set al - {id}"
      by (auto simp add: AList.delete_eq)
    with True x Cons.IH [of "AList.delete id al"] show ?thesis by auto
  next
    case False
    with x Cons.IH [of al] show ?thesis by auto
  qed
qed

lemma keys_cleanup:
  "fst ` set (sessions (cleanup st))
     = fst ` set (sessions st)
       - {id. \<exists>r. (id, r) \<in> set (sessions st) \<and> is_dead (process (heap st ! r))}"
  unfolding cleanup_def is_dead_def
  using keys_sweep [of "\<lambda>r. killed (process (heap st ! r)) \<or> exitCode (process (heap st ! r)) \<noteq> None"
      "sessions st" "sessions st"]
  by simp

lemma dispatch_cases:
  "(\<exists>j. action p = ''kill'' \<and> session_id p = Some j \<and>
        processInteractive h p b st = killProcess (calls st) j (st\<lparr>calls := Suc (calls st)\<rparr>))
   \<or> (\<exists>j inp. action p = ''write'' \<and> session_id p = Some j \<and> input p = Some inp \<and>
        processInteractive h p b st
          = writeToProcess (calls st) j inp (st\<lparr>calls := Suc (calls st)\<rparr>))
   \<or> sessions (processInteractive h p b st) = sessions st"
  by (simp add: processInteractive_def Let_def split: option.splits)

lemma keys_call:
  assumes "i \<in> fst ` set (sessions st)"
      and "i \<notin> fst ` set (sessions (processInteractive h p b st))"
  shows "\<exists>r. session_id p = Some i \<and> map_of (sessions st) i = Some r \<and>
           (action p = ''kill'' \<or>
            action p = ''write'' \<and> input p \<noteq> None \<and> is_dead (process (heap st ! r)))"
proof -
  let ?st = "st\<lparr>calls := Suc (calls st)\<rparr>"
  have same: "sessions ?st = sessions st" "heap ?st = heap st" by simp_all
  obtain r0 where r0: "map_of (sessions st) i = Some r0"
    using assms(1) by (metis domD dom_map_of_conv_image_fst)
  from dispatch_cases [of p h b st] consider (k) j where "action p = ''kill''" "session_id p = Some j"
      "processInteractive h p b st = killProcess (calls st) j ?st"
    | (w) j inp where "action p = ''write''" "session_id p = Some j"
      "input p = Some inp" "processInteractive h p b st = writeToProcess (calls st) j inp ?st"
    | (other) "sessions (processInteractive h p b st) = sessions st"
    by blast
  then show ?thesis
  proof cases
    case k
    have "j = i"
    proof (rule ccontr)
      assume "j \<noteq> i"
      then have "i \<in> fst ` set (AList.delete j (sessions st))"
        using assms(1) by (auto simp add: AList.delete_eq)
      with assms(2) k(3) show False
        by (simp add: sessions_killProcess)
    qed
    with k r0 show ?thesis by simp
  next
    case w
    have del: "sessions (writeToProcess (calls st) j inp ?st) \<noteq> sessions st"
      using assms w(4) by auto
    then obtain r where r: "map_of (sessions st) j = Some r" "is_dead (process (heap st ! r))"
        and eq: "sessions (writeToProcess (calls st) j inp ?st) = AList.delete j (sessions st)"
      by (auto simp add: sessions_writeToProcess split: option.splits if_splits)
    have "j = i"
    proof (rule ccontr)
      assume "j \<noteq> i"
      then have "i \<in> fst ` set (AList.delete j (sessions st))"
        using assms(1) by (auto simp add: AList.delete_eq)
      with assms(2) w(4) eq show False by simp
    qed
    with w r show ?thesis by simp
  next
    case other
    with assms show ?thesis by simp
  qed
qed

lemma keys_step_other:
  assumes "e \<noteq> Cleanup" and "\<And>p b. e \<noteq> Call p b"
  shows "fst ` set (sessions st) \<subseteq> fst ` set (sessions (step h st e))"
proof (cases e)
  case (Timer n)
  then show ?thesis
    using keys_fire [of "st\<lparr>timers := remove_nth n (timers st)\<rparr>" "snd (timers st ! n)"]
    by auto
next
  case (Written n err)
  then show ?thesis by (auto split: prod.splits)
qed (use assms in auto)

text \<open>
  The association list stands for a \<open>Map\<close>: no step gives it two entries with the same
  key, so its length is the \<open>size\<close> the limit check reads.
\<close>

lemma distinct_sweep:
  "distinct (map fst al) \<Longrightarrow>
   distinct (map fst (fold (\<lambda>(id, r) al. if P r then AList.delete id al else al) xs al))"
proof (induction xs arbitrary: al)
  case Nil
  then show ?case by simp
next
  case (Cons x xs)
  obtain id r where x: "x = (id, r)" by (cases x)
  from Cons.prems have "distinct (map fst (AList.delete id al))"
    by (rule AList.distinct_delete)
  with Cons x show ?case by simp
qed

lemma distinct_keys_call:
  assumes "distinct (map fst (sessions st))"
  shows "distinct (map fst (sessions (processInteractive h p b st)))"
proof -
  let ?st = "st\<lparr>calls := Suc (calls st)\<rparr>"
  have "(\<exists>j. processInteractive h p b st = killProcess (calls st) j ?st)
      \<or> (\<exists>j inp. processInteractive h p b st = writeToProcess (calls st) j inp ?st)
      \<or> sessions (processInteractive h p b st) = sessions st"
    using dispatch_cases [of p h b st] by blast
  moreover have "distinct (map fst (sessions (killProcess c j ?st)))" for c j
    using assms by (simp add: sessions_killProcess AList.distinct_delete)
  moreover have "distinct (map fst (sessions (writeToProcess c j inp ?st)))" for c j inp
    using assms by (simp add: sessions_writeToProcess AList.distinct_delete split: option.splits)
  ultimately show ?thesis
    using assms by auto
qed

lemma distinct_keys_step:
  assumes "distinct (map fst (sessions st))"
  shows "distinct (map fst (sessions (step h st e)))"
proof (cases e)
  case (Call p b)
  with assms show ?thesis by (simp add: distinct_keys_call)
next
  case (Timer n)
  have "distinct (map fst (sessions (fire t st')))" if "sessions st' = sessions st" for t st'
    using assms that
    by (cases t) (simp_all add: startProcess_settle_def Let_def AList.distinct_update)
  with Timer assms show ?thesis by simp
next
  case (Written n err)
  with assms show ?thesis by (simp split: prod.splits)
next
  case Cleanup
  with assms show ?thesis by (simp add: cleanup_def distinct_sweep)
qed (use assms in simp_all)

lemma distinct_keys_run:
  "distinct (map fst (sessions (run h init evs)))"
proof -
  have "distinct (map fst (sessions st)) \<Longrightarrow> distinct (map fst (sessions (foldl (step h) st evs)))"
    for st
    by (induction evs arbitrary: st) (simp_all add: distinct_keys_step)
  then show ?thesis
    by (simp add: run_def init_def)
qed

subsection \<open>Leaving the Map\<close>

text \<open>
  An entry of the \<open>Map\<close> is a key together with the session object it leads to. The
  lemmas follow one entry through the sweep of the periodic cleanup, through a call and
  through a timer callback.
\<close>

lemma map_of_sweep:
  "map_of (fold (\<lambda>(id, r) al. if P r then AList.delete id al else al) xs al) k
     = (if \<exists>r. (k, r) \<in> set xs \<and> P r then None else map_of al k)"
proof (induction xs arbitrary: al)
  case Nil
  show ?case by simp
next
  case (Cons x xs)
  obtain id r where x: "x = (id, r)" by (cases x)
  show ?case
  proof (cases "P r")
    case True
    with x Cons.IH [of "AList.delete id al"] show ?thesis
      by (auto simp add: AList.delete_conv)
  next
    case False
    with x Cons.IH [of al] show ?thesis by auto
  qed
qed

lemma map_of_cleanup:
  "map_of (sessions (cleanup st)) k
     = (if \<exists>r. (k, r) \<in> set (sessions st) \<and> is_dead (process (heap st ! r)) then None
        else map_of (sessions st) k)"
  unfolding cleanup_def is_dead_def
  using map_of_sweep [of "\<lambda>r. killed (process (heap st ! r)) \<or> exitCode (process (heap st ! r)) \<noteq> None"
      "sessions st" "sessions st" k]
  by simp

lemma entry_call:
  assumes "map_of (sessions st) i = Some r"
      and "map_of (sessions (processInteractive h p b st)) i \<noteq> Some r"
  shows "session_id p = Some i \<and>
           (action p = ''kill'' \<or>
            action p = ''write'' \<and> input p \<noteq> None \<and> is_dead (process (heap st ! r)))"
proof -
  let ?st = "st\<lparr>calls := Suc (calls st)\<rparr>"
  from dispatch_cases [of p h b st] consider (k) j where "action p = ''kill''" "session_id p = Some j"
      "processInteractive h p b st = killProcess (calls st) j ?st"
    | (w) j inp where "action p = ''write''" "session_id p = Some j"
      "input p = Some inp" "processInteractive h p b st = writeToProcess (calls st) j inp ?st"
    | (other) "sessions (processInteractive h p b st) = sessions st"
    by blast
  then show ?thesis
  proof cases
    case k
    have "j = i"
    proof (rule ccontr)
      assume "j \<noteq> i"
      then have "map_of (AList.delete j (sessions st)) i = map_of (sessions st) i"
        by (simp add: AList.delete_conv)
      with assms k(3) show False
        by (simp add: sessions_killProcess)
    qed
    with k show ?thesis by simp
  next
    case w
    have "sessions (writeToProcess (calls st) j inp ?st) \<noteq> sessions st"
      using assms w(4) by auto
    then obtain r' where r': "map_of (sessions st) j = Some r'" "is_dead (process (heap st ! r'))"
        and eq: "sessions (writeToProcess (calls st) j inp ?st) = AList.delete j (sessions st)"
      by (auto simp add: sessions_writeToProcess split: option.splits if_splits)
    have "j = i"
    proof (rule ccontr)
      assume "j \<noteq> i"
      then have "map_of (AList.delete j (sessions st)) i = map_of (sessions st) i"
        by (simp add: AList.delete_conv)
      with assms w(4) eq show False by simp
    qed
    with w r' assms(1) show ?thesis by simp
  next
    case other
    with assms show ?thesis by simp
  qed
qed

lemma entry_fire:
  assumes "map_of (sessions st) i = Some r"
      and "map_of (sessions (fire t st)) i \<noteq> Some r"
  shows "\<exists>call child. t = StartSettle call i child \<and> child \<noteq> r
           \<and> \<not> is_dead (process (heap st ! child))"
proof (cases t)
  case (StartSettle call sid child)
  with assms show ?thesis
    by (auto simp add: startProcess_settle_def Let_def is_dead_def AList.update_conv
        split: if_splits)
qed (use assms in auto)

text \<open>
  Claim C3, as stated, fails in two ways. A \<open>write\<close> to a session whose process has
  exited answers \<open>PROCESS_DIED\<close> and deletes the entry itself: the \<open>Map\<close> is empty after
  it. And a later \<open>start\<close> that draws the id of a registered session replaces that
  session's entry when its 500 ms timer fires: the key \<open>00000001\<close> then leads to session
  object 1, and session object 0, whose process is still running and was never killed,
  is no longer in the \<open>Map\<close>.
\<close>

theorem dead_write_removes_counterexample:
  "sessions (run example_host init (one_session @ [Exited 0 0])) = [(''00000001'', 0)]
   \<and> sessions (run example_host init
        (one_session @ [Exited 0 0, Call (write_params ''00000001'' ''exit()'') (0, 0, 0, 0)])) = []
   \<and> promise (run example_host init
        (one_session @ [Exited 0 0, Call (write_params ''00000001'' ''exit()'') (0, 0, 0, 0)])) 1
       = Some (Failure ''PROCESS_DIED'' ''Process is no longer running'' (Some (''final_output'', [])))
   \<and> sessions (run example_host init
        (one_session @ [Call (start_params ''node'') (0, 0, 0, 1), Elapse 500]))
       = [(''00000001'', 0)]
   \<and> sessions (run example_host init
        (one_session @ [Call (start_params ''node'') (0, 0, 0, 1), Elapse 500, Timer 0]))
       = [(''00000001'', 1)]
   \<and> process (heap (run example_host init
        (one_session @ [Call (start_params ''node'') (0, 0, 0, 1), Elapse 500, Timer 0])) ! 0)
       = spawn"
  by (simp add: evals)

text \<open>
  Claim C3, amended. Let the \<open>Map\<close> have no duplicate keys and let key \<open>i\<close> lead to
  session object \<open>r\<close>. If after one step of the event loop \<open>i\<close> no longer leads to \<open>r\<close>,
  then the step was the periodic cleanup and the process of \<open>r\<close> was dead, or a \<open>kill\<close>
  of \<open>i\<close>, or a \<open>write\<close> to \<open>i\<close> that found the process of \<open>r\<close> dead, or the 500 ms timer
  of a start that drew the same id \<open>i\<close> for another session object whose process is
  alive. \<open>readFromProcess\<close>, its poll \<open>checkOutput\<close>, \<open>listSessions\<close> and the two
  callbacks of \<open>write\<close> leave the \<open>Map\<close> as it is, whatever they observe; \<open>writeToProcess\<close>
  deletes the entry exactly when the process is dead.
\<close>

theorem session_leaves_store_only_by:
  "(distinct (map fst (sessions st)) \<and> map_of (sessions st) i = Some r
      \<and> map_of (sessions (step h st e)) i \<noteq> Some r \<longrightarrow>
      (e = Cleanup \<and> is_dead (process (heap st ! r)))
      \<or> (\<exists>p b. e = Call p b \<and> session_id p = Some i \<and>
            (action p = ''kill'' \<or>
             action p = ''write'' \<and> input p \<noteq> None \<and> is_dead (process (heap st ! r))))
      \<or> (\<exists>n due call child. e = Timer n \<and> n < length (timers st) \<and> due \<le> clock st
            \<and> timers st ! n = (due, StartSettle call i child) \<and> child \<noteq> r
            \<and> \<not> is_dead (process (heap st ! child))))
   \<and> sessions (readFromProcess call i t st) = sessions st
   \<and> sessions (checkOutput call i r' ob t0 tmo st) = sessions st
   \<and> sessions (listSessions call st) = sessions st
   \<and> sessions (writeToProcess_written call i r' ob err st) = sessions st
   \<and> sessions (writeToProcess_settle call i r' ob st) = sessions st
   \<and> sessions (writeToProcess call i text st)
       = (case map_of (sessions st) i of
            None \<Rightarrow> sessions st
          | Some r \<Rightarrow> if is_dead (process (heap st ! r)) then AList.delete i (sessions st)
                      else sessions st)"
proof -
  have "(e = Cleanup \<and> is_dead (process (heap st ! r)))
      \<or> (\<exists>p b. e = Call p b \<and> session_id p = Some i \<and>
            (action p = ''kill'' \<or>
             action p = ''write'' \<and> input p \<noteq> None \<and> is_dead (process (heap st ! r))))
      \<or> (\<exists>n due call child. e = Timer n \<and> n < length (timers st) \<and> due \<le> clock st
            \<and> timers st ! n = (due, StartSettle call i child) \<and> child \<noteq> r
            \<and> \<not> is_dead (process (heap st ! child)))"
    if D: "distinct (map fst (sessions st))" and A: "map_of (sessions st) i = Some r"
      and B: "map_of (sessions (step h st e)) i \<noteq> Some r"
  proof (cases e)
    case (Call p b)
    with entry_call [of st i r h p b] A B have "session_id p = Some i \<and>
           (action p = ''kill'' \<or>
            action p = ''write'' \<and> input p \<noteq> None \<and> is_dead (process (heap st ! r)))"
      by simp
    with Call show ?thesis by blast
  next
    case (Timer n)
    show ?thesis
    proof (cases "n < length (timers st) \<and> fst (timers st ! n) \<le> clock st")
      case True
      let ?st = "st\<lparr>timers := remove_nth n (timers st)\<rparr>"
      from True Timer B have "map_of (sessions (fire (snd (timers st ! n)) ?st)) i \<noteq> Some r"
        by simp
      with entry_fire [of ?st i r "snd (timers st ! n)"] A
      obtain call child where "snd (timers st ! n) = StartSettle call i child" "child \<noteq> r"
          "\<not> is_dead (process (heap st ! child))"
        by auto
      then have "timers st ! n = (fst (timers st ! n), StartSettle call i child)"
        by (metis prod.collapse)
      with True Timer \<open>child \<noteq> r\<close> \<open>\<not> is_dead (process (heap st ! child))\<close> show ?thesis
        by blast
    next
      case False
      with Timer A B show ?thesis by auto
    qed
  next
    case (Written n err)
    with A B show ?thesis by (auto split: prod.splits if_splits)
  next
    case Cleanup
    from B Cleanup A obtain r'' where r'': "(i, r'') \<in> set (sessions st)"
        "is_dead (process (heap st ! r''))"
      by (auto simp add: map_of_cleanup split: if_splits)
    from D r''(1) have "map_of (sessions st) i = Some r''"
      by (rule map_of_is_SomeI)
    with A r''(2) Cleanup show ?thesis by simp
  qed (use A B in \<open>auto split: if_splits\<close>)
  then have first: "distinct (map fst (sessions st)) \<and> map_of (sessions st) i = Some r
      \<and> map_of (sessions (step h st e)) i \<noteq> Some r \<longrightarrow>
      (e = Cleanup \<and> is_dead (process (heap st ! r)))
      \<or> (\<exists>p b. e = Call p b \<and> session_id p = Some i \<and>
            (action p = ''kill'' \<or>
             action p = ''write'' \<and> input p \<noteq> None \<and> is_dead (process (heap st ! r))))
      \<or> (\<exists>n due call child. e = Timer n \<and> n < length (timers st) \<and> due \<le> clock st
            \<and> timers st ! n = (due, StartSettle call i child) \<and> child \<noteq> r
            \<and> \<not> is_dead (process (heap st ! child)))"
    by blast
  show ?thesis
    by (rule conjI [OF first]) (simp add: sessions_writeToProcess)
qed

text \<open>
  The theorem for claim C3 at the step where the timer of a second start with the id
  \<open>00000001\<close> fires: the entry that led to session object 0 is gone, and the theorem
  leaves only the registration of session object 1, whose process is alive, as the cause.
\<close>

theorem session_leaves_store_only_by_witness:
  "distinct (map fst (sessions (run example_host init
      (one_session @ [Call (start_params ''node'') (0, 0, 0, 1), Elapse 500]))))
   \<and> map_of (sessions (run example_host init
        (one_session @ [Call (start_params ''node'') (0, 0, 0, 1), Elapse 500]))) ''00000001''
      = Some 0
   \<and> map_of (sessions (step example_host
        (run example_host init (one_session @ [Call (start_params ''node'') (0, 0, 0, 1), Elapse 500]))
        (Timer 0))) ''00000001'' \<noteq> Some 0
   \<and> timers (run example_host init
        (one_session @ [Call (start_params ''node'') (0, 0, 0, 1), Elapse 500])) ! 0
      = (1000, StartSettle 1 ''00000001'' 1)
   \<and> \<not> is_dead (process (heap (run example_host init
        (one_session @ [Call (start_params ''node'') (0, 0, 0, 1), Elapse 500])) ! 1))"
proof -
  let ?st = "run example_host init (one_session @ [Call (start_params ''node'') (0, 0, 0, 1), Elapse 500])"
  have st: "sessions ?st = [(''00000001'', 0)]" "timers ?st = [(1000, StartSettle 1 ''00000001'' 1)]"
    "clock ?st = 1000"
    by (simp_all add: evals)
  have after: "sessions (step example_host ?st (Timer 0)) = [(''00000001'', 1)]"
    by (simp add: evals)
  have hyp: "distinct (map fst (sessions ?st)) \<and> map_of (sessions ?st) ''00000001'' = Some 0
      \<and> map_of (sessions (step example_host ?st (Timer 0))) ''00000001'' \<noteq> Some 0"
    unfolding after st by simp
  have "Timer 0 \<noteq> Cleanup" "\<And>p b. Timer 0 \<noteq> Call p b" by simp_all
  with hyp session_leaves_store_only_by [of ?st "''00000001''" 0 example_host "Timer 0"]
  have "\<exists>due call child. timers ?st ! 0 = (due, StartSettle call ''00000001'' child)
      \<and> child \<noteq> 0 \<and> \<not> is_dead (process (heap ?st ! child))"
    by blast
  then have "\<not> is_dead (process (heap ?st ! 1))"
    by (simp add: st)
  with hyp show ?thesis by (simp add: st)
qed

subsection \<open>Unknown session ids\<close>

text \<open>
  Claim C8, as stated, fails on the error code: for an id that is not in the \<open>Map\<close>,
  \<open>write\<close>, \<open>read\<close> and \<open>kill\<close> answer with the code \<open>SESSION_NOT_FOUND\<close>, which is not
  \<open>NOT_FOUND\<close>.
\<close>

theorem unknown_id_code_counterexample:
  "promise (step example_host init (Call (write_params ''deadbeef'' ''2 + 2'') (0, 0, 0, 0))) 0
     = Some (Failure ''SESSION_NOT_FOUND'' ''Session deadbeef not found'' None)
   \<and> promise (step example_host init (Call (read_params ''deadbeef'' None) (0, 0, 0, 0))) 0
     = Some (Failure ''SESSION_NOT_FOUND'' ''Session deadbeef not found'' None)
   \<and> promise (step example_host init (Call (kill_params ''deadbeef'') (0, 0, 0, 0))) 0
     = Some (Failure ''SESSION_NOT_FOUND'' ''Session deadbeef not found'' None)
   \<and> code (Failure ''SESSION_NOT_FOUND'' ''Session deadbeef not found'' None) \<noteq> Some ''NOT_FOUND''"
  by (simp add: evals)

text \<open>
  Claim C8, amended. For every session id that is not in the \<open>Map\<close>, \<open>writeToProcess\<close>,
  \<open>readFromProcess\<close> and \<open>killProcess\<close> each resolve with the structured error whose code
  is \<open>SESSION_NOT_FOUND\<close> and whose message names the id, and change nothing else: the
  heap of session objects, the \<open>Map\<close>, the pending timers and the pending writes are the
  same after the call.
\<close>

theorem unknown_id_session_not_found:
  assumes "map_of (sessions st) i = None"
  shows "writeToProcess call i text st
           = st\<lparr>settled := settled st @
                [(call, Failure ''SESSION_NOT_FOUND'' (''Session '' @ i @ '' not found'') None)]\<rparr>
       \<and> readFromProcess call i t st
           = st\<lparr>settled := settled st @
                [(call, Failure ''SESSION_NOT_FOUND'' (''Session '' @ i @ '' not found'') None)]\<rparr>
       \<and> killProcess call i st
           = st\<lparr>settled := settled st @
                [(call, Failure ''SESSION_NOT_FOUND'' (''Session '' @ i @ '' not found'') None)]\<rparr>"
  using assms
  by (simp add: writeToProcess_def readFromProcess_def killProcess_def resolve_def createError_def)

text \<open>
  The theorem for claim C8 on the empty \<open>Map\<close> and the id \<open>deadbeef\<close>.
\<close>

theorem unknown_id_session_not_found_witness:
  "map_of (sessions init) ''deadbeef'' = None
   \<and> killProcess 0 ''deadbeef'' init
        = init\<lparr>settled := [(0, Failure ''SESSION_NOT_FOUND'' ''Session deadbeef not found'' None)]\<rparr>
   \<and> heap (killProcess 0 ''deadbeef'' init) = heap init
   \<and> sessions (killProcess 0 ''deadbeef'' init) = sessions init"
  using unknown_id_session_not_found [of init "''deadbeef''" 0 "''x''" None]
  by (simp add: init_def)

subsection \<open>Registration\<close>

lemma update_fresh: "k \<notin> fst ` set al \<Longrightarrow> AList.update k v al = al @ [(k, v)]"
  by (induction al) auto

text \<open>
  Claim C9, as stated, fails when \<open>randomBytes\<close> returns the same four bytes twice. The
  first start registers session object 0 under \<open>00000001\<close>; the second start draws the
  same id, succeeds as well, and its \<open>sessions.set\<close> replaces the entry: the \<open>Map\<close> now
  leads to session object 1 only.
\<close>

theorem same_id_replaces_counterexample:
  "sessions (run example_host init
      [Call (start_params ''python'') (0, 0, 0, 1), Elapse 500, Timer 0]) = [(''00000001'', 0)]
   \<and> sessions (run example_host init
      [Call (start_params ''python'') (0, 0, 0, 1), Elapse 500, Timer 0,
       Call (start_params ''node'') (0, 0, 0, 1), Elapse 500, Timer 0]) = [(''00000001'', 1)]
   \<and> map snd (settled (run example_host init
      [Call (start_params ''python'') (0, 0, 0, 1), Elapse 500, Timer 0,
       Call (start_params ''node'') (0, 0, 0, 1), Elapse 500, Timer 0]))
      = [Reply ''00000001'' [] True, Reply ''00000001'' [] True]"
  by (simp add: evals)

lemma length_generateSessionId: "length (generateSessionId b) = 8"
  by (cases b) (simp add: hex_byte_def)

text \<open>
  Claim C9, amended. A valid \<open>start\<close> call below the limit draws the id
  \<open>generateSessionId b\<close>, eight hexadecimal digits made from the four random bytes \<open>b\<close>,
  creates a new session object and arms the 500 ms timer for that id and that object.
  When the timer fires, after any other events, with the child alive and the id not a
  key of the \<open>Map\<close> at that instant, the new session is registered under that id as a
  new last entry, the call is answered with the id, and every entry that was in the
  \<open>Map\<close> is still there, leading to the same session object. Nothing in the code makes
  the id differ from the keys in the \<open>Map\<close>: when it does not, the existing entry is
  replaced, as in the example above.
\<close>

theorem start_registers_under_drawn_id:
  assumes "action p = ''start''" and "command_arg p = Some c" and "c \<noteq> []"
      and "length (sessions st) < MAX_SESSIONS"
      and "st' = run h (step h st (Call p b)) evs"
      and "n < length (timers st')"
      and "timers st' ! n
             = (clock st + 500, StartSettle (calls st) (generateSessionId b) (length (heap st)))"
      and "clock st + 500 \<le> clock st'"
      and "\<not> is_dead (process (heap st' ! length (heap st)))"
      and "generateSessionId b \<notin> fst ` set (sessions st')"
  shows "timers (step h st (Call p b))
           = timers st
             @ [(clock st + 500, StartSettle (calls st) (generateSessionId b) (length (heap st)))]
       \<and> length (heap (step h st (Call p b))) = Suc (length (heap st))
       \<and> length (generateSessionId b) = 8
       \<and> sessions (step h st' (Timer n))
           = sessions st' @ [(generateSessionId b, length (heap st))]
       \<and> settled (step h st' (Timer n))
           = settled st'
             @ [(calls st, Reply (generateSessionId b)
                            (join_nl (output (heap st' ! length (heap st)))) True)]
       \<and> (\<forall>k v. map_of (sessions st') k = Some v \<longrightarrow>
             map_of (sessions (step h st' (Timer n))) k = Some v)"
proof -
  let ?id = "generateSessionId b" and ?child = "length (heap st)"
  have call: "step h st (Call p b)
      = setTimeout (StartSettle (calls st) ?id ?child) 500
          (st\<lparr>calls := Suc (calls st),
              heap := heap st @ [\<lparr>process = spawn, output = [], started = clock st, command = c,
                 cwd = (case cwd_arg p of None \<Rightarrow> getHomeDir h
                        | Some d \<Rightarrow> if d = [] then getHomeDir h else normalizePath h d)\<rparr>],
              spawned_by := spawned_by st @ [calls st]\<rparr>)"
    using assms(1-4) by (simp add: processInteractive_def startProcess_def Let_def)
  have 1: "timers (step h st (Call p b)) = timers st @ [(clock st + 500, StartSettle (calls st) ?id ?child)]"
    unfolding call by (simp add: setTimeout_def)
  have 2: "length (heap (step h st (Call p b))) = Suc (length (heap st))"
    unfolding call by (simp add: setTimeout_def)
  let ?st = "st'\<lparr>timers := remove_nth n (timers st')\<rparr>"
  have fire: "step h st' (Timer n) = startProcess_settle (calls st) ?id ?child ?st"
    using assms(6-8) by simp
  have alive: "\<not> (killed (process (heap ?st ! ?child)) \<or> exitCode (process (heap ?st ! ?child)) \<noteq> None)"
    using assms(9) by (simp add: is_dead_def)
  have 4: "sessions (step h st' (Timer n)) = sessions st' @ [(?id, ?child)]"
    unfolding fire using alive assms(10)
    by (simp add: startProcess_settle_def Let_def update_fresh)
  have 5: "settled (step h st' (Timer n))
      = settled st' @ [(calls st, Reply ?id (join_nl (output (heap st' ! ?child))) True)]"
    unfolding fire using alive
    by (simp add: startProcess_settle_def Let_def resolve_def)
  have 6: "\<forall>k v. map_of (sessions st') k = Some v \<longrightarrow>
      map_of (sessions (step h st' (Timer n))) k = Some v"
    unfolding 4 by (auto simp add: map_add_Some_iff)
  from 1 2 4 5 6 length_generateSessionId show ?thesis by blast
qed

text \<open>
  The theorem for claim C9 on a second start, with the bytes 00 00 00 02, while the
  session \<open>00000001\<close> is registered: the \<open>Map\<close> gains the entry \<open>00000002\<close> and keeps
  the entry \<open>00000001\<close>.
\<close>

theorem start_registers_under_drawn_id_witness:
  "sessions (run example_host (step example_host (run example_host init one_session)
       (Call (start_params ''node'') (0, 0, 0, 2))) [Elapse 500])
     = [(''00000001'', 0)]
   \<and> timers (run example_host (step example_host (run example_host init one_session)
       (Call (start_params ''node'') (0, 0, 0, 2))) [Elapse 500]) ! 0
     = (1000, StartSettle 1 (generateSessionId (0, 0, 0, 2)) 1)
   \<and> generateSessionId (0, 0, 0, 2) = ''00000002''
   \<and> sessions (step example_host
        (run example_host (step example_host (run example_host init one_session)
           (Call (start_params ''node'') (0, 0, 0, 2))) [Elapse 500]) (Timer 0))
     = [(''00000001'', 0), (''00000002'', 1)]
   \<and> map_of (sessions (step example_host
        (run example_host (step example_host (run example_host init one_session)
           (Call (start_params ''node'') (0, 0, 0, 2))) [Elapse 500]) (Timer 0))) ''00000001''
     = Some 0"
proof -
  let ?st = "run example_host init one_session"
  let ?p = "start_params ''node''"
  let ?b = "(0, 0, 0, 2) :: bytes4"
  let ?st' = "run example_host (step example_host ?st (Call ?p ?b)) [Elapse 500]"
  have id: "generateSessionId ?b = ''00000002''"
    by (simp add: hex_byte_def hex_digit_def)
  have st: "length (sessions ?st) < MAX_SESSIONS" "clock ?st = 500" "calls ?st = 1"
    "length (heap ?st) = 1"
    by (simp_all add: evals)
  have st': "sessions ?st' = [(''00000001'', 0)]"
    "timers ?st' = [(1000, StartSettle 1 ''00000002'' 1)]" "clock ?st' = 1000"
    "\<not> is_dead (process (heap ?st' ! 1))"
    by (simp_all add: evals is_dead_def)
  have p: "action ?p = ''start''" "command_arg ?p = Some ''node''" "''node'' \<noteq> []"
    by (simp_all add: start_params_def)
  have h6: "0 < length (timers ?st')" unfolding st' by simp
  have h7: "timers ?st' ! 0
      = (clock ?st + 500, StartSettle (calls ?st) (generateSessionId ?b) (length (heap ?st)))"
    unfolding st st' id by simp
  have h8: "clock ?st + 500 \<le> clock ?st'" unfolding st st' by simp
  have h9: "\<not> is_dead (process (heap ?st' ! length (heap ?st)))" unfolding st using st'(4) .
  have h10: "generateSessionId ?b \<notin> fst ` set (sessions ?st')" unfolding st' id by simp
  have after: "sessions (step example_host ?st' (Timer 0)) = [(''00000001'', 0), (''00000002'', 1)]"
    using start_registers_under_drawn_id [OF p st(1) refl h6 h7 h8 h9 h10]
    unfolding st st' id by simp
  have t: "timers ?st' ! 0 = (1000, StartSettle 1 (generateSessionId ?b) 1)"
    unfolding st' id by simp
  show ?thesis
    unfolding after t id using st'(1) by simp
qed

subsection \<open>Validation at the entry point\<close>

text \<open>
  Claim C10. \<open>processInteractive\<close> answers \<open>INVALID_PARAMS\<close>, touching nothing but the
  call counter and the list of results, for \<open>start\<close> with the empty string as command and
  for \<open>write\<close>, \<open>read\<close> and \<open>kill\<close> with the empty string as session id, so that an
  empty id never reaches the lookup that reports a missing session. For \<open>write\<close> with a
  non-empty id, an absent input is \<open>INVALID_PARAMS\<close>, while the empty string as input
  is passed on to \<open>writeToProcess\<close>, which, for a registered session with a live process,
  hands the empty string to the standard input of the process and waits for the callback
  of that write.
\<close>

theorem empty_strings_at_dispatch:
  "(action p = ''start'' \<and> command_arg p = Some [] \<longrightarrow>
      processInteractive h p b st
        = (st\<lparr>calls := Suc (calls st)\<rparr>)\<lparr>settled := settled st @
             [(calls st, Failure ''INVALID_PARAMS'' ''Command required for start action'' None)]\<rparr>)
   \<and> (action p = ''write'' \<and> session_id p = Some [] \<longrightarrow>
      processInteractive h p b st
        = (st\<lparr>calls := Suc (calls st)\<rparr>)\<lparr>settled := settled st @
             [(calls st, Failure ''INVALID_PARAMS'' ''session_id required for write action'' None)]\<rparr>)
   \<and> (action p = ''read'' \<and> session_id p = Some [] \<longrightarrow>
      processInteractive h p b st
        = (st\<lparr>calls := Suc (calls st)\<rparr>)\<lparr>settled := settled st @
             [(calls st, Failure ''INVALID_PARAMS'' ''session_id required for read action'' None)]\<rparr>)
   \<and> (action p = ''kill'' \<and> session_id p = Some [] \<longrightarrow>
      processInteractive h p b st
        = (st\<lparr>calls := Suc (calls st)\<rparr>)\<lparr>settled := settled st @
             [(calls st, Failure ''INVALID_PARAMS'' ''session_id required for kill action'' None)]\<rparr>)
   \<and> (action p = ''write'' \<and> session_id p = Some i \<and> i \<noteq> [] \<and> input p = None \<longrightarrow>
      processInteractive h p b st
        = (st\<lparr>calls := Suc (calls st)\<rparr>)\<lparr>settled := settled st @
             [(calls st, Failure ''INVALID_PARAMS'' ''input required for write action'' None)]\<rparr>)
   \<and> (action p = ''write'' \<and> session_id p = Some i \<and> i \<noteq> [] \<and> input p = Some [] \<longrightarrow>
      processInteractive h p b st = writeToProcess (calls st) i [] (st\<lparr>calls := Suc (calls st)\<rparr>))
   \<and> (map_of (sessions st) i = Some r \<and> r < length (heap st) \<and> \<not> is_dead (process (heap st ! r)) \<longrightarrow>
      stdin (process (heap (writeToProcess call i [] st) ! r)) = stdin (process (heap st ! r)) @ [[]]
      \<and> writes (writeToProcess call i [] st)
          = writes st @ [(call, i, r, length (output (heap st ! r)))]
      \<and> settled (writeToProcess call i [] st) = settled st)"
  by (simp add: processInteractive_def invalid_params_def resolve_def createError_def Let_def
      writeToProcess_def is_dead_def set_process_def)

text \<open>
  The theorem for claim C10 at concrete calls: each empty-string rejection on a fresh
  module, and the empty input written to the session \<open>00000001\<close>.
\<close>

theorem empty_strings_at_dispatch_witness:
  "processInteractive example_host (start_params []) (0, 0, 0, 0) init
     = init\<lparr>calls := 1,
            settled := [(0, Failure ''INVALID_PARAMS'' ''Command required for start action'' None)]\<rparr>
   \<and> processInteractive example_host (read_params [] None) (0, 0, 0, 0) init
     = init\<lparr>calls := 1,
            settled := [(0, Failure ''INVALID_PARAMS'' ''session_id required for read action'' None)]\<rparr>
   \<and> processInteractive example_host (kill_params []) (0, 0, 0, 0) init
     = init\<lparr>calls := 1,
            settled := [(0, Failure ''INVALID_PARAMS'' ''session_id required for kill action'' None)]\<rparr>
   \<and> processInteractive example_host (write_params [] ''x'') (0, 0, 0, 0) init
     = init\<lparr>calls := 1,
            settled := [(0, Failure ''INVALID_PARAMS'' ''session_id required for write action'' None)]\<rparr>
   \<and> processInteractive example_host (write_params ''00000001'' []) (0, 0, 0, 0)
        (run example_host init one_session)
     = writeToProcess 1 ''00000001'' [] ((run example_host init one_session)\<lparr>calls := 2\<rparr>)
   \<and> stdin (process (heap (writeToProcess 1 ''00000001'' [] (run example_host init one_session)) ! 0))
     = [[]]"
proof -
  let ?st = "run example_host init one_session"
  have st: "sessions ?st = [(''00000001'', 0)]" "length (heap ?st) = 1"
    "stdin (process (heap ?st ! 0)) = []" "\<not> is_dead (process (heap ?st ! 0))" "calls ?st = 1"
    by (simp_all add: evals is_dead_def)
  have 1: "processInteractive example_host (start_params []) (0, 0, 0, 0) init
     = init\<lparr>calls := 1,
            settled := [(0, Failure ''INVALID_PARAMS'' ''Command required for start action'' None)]\<rparr>"
    using empty_strings_at_dispatch [where p = "start_params []" and h = example_host
        and b = "(0, 0, 0, 0)" and st = init and i = "[]" and r = 0 and call = 0]
    by (simp add: start_params_def init_def)
  have 2: "processInteractive example_host (read_params [] None) (0, 0, 0, 0) init
     = init\<lparr>calls := 1,
            settled := [(0, Failure ''INVALID_PARAMS'' ''session_id required for read action'' None)]\<rparr>"
    using empty_strings_at_dispatch [where p = "read_params [] None" and h = example_host
        and b = "(0, 0, 0, 0)" and st = init and i = "[]" and r = 0 and call = 0]
    by (simp add: read_params_def init_def)
  have 3: "processInteractive example_host (kill_params []) (0, 0, 0, 0) init
     = init\<lparr>calls := 1,
            settled := [(0, Failure ''INVALID_PARAMS'' ''session_id required for kill action'' None)]\<rparr>"
    using empty_strings_at_dispatch [where p = "kill_params []" and h = example_host
        and b = "(0, 0, 0, 0)" and st = init and i = "[]" and r = 0 and call = 0]
    by (simp add: kill_params_def init_def)
  have 4: "processInteractive example_host (write_params [] ''x'') (0, 0, 0, 0) init
     = init\<lparr>calls := 1,
            settled := [(0, Failure ''INVALID_PARAMS'' ''session_id required for write action'' None)]\<rparr>"
    using empty_strings_at_dispatch [where p = "write_params [] ''x''" and h = example_host
        and b = "(0, 0, 0, 0)" and st = init and i = "[]" and r = 0 and call = 0]
    by (simp add: write_params_def init_def)
  have 5: "processInteractive example_host (write_params ''00000001'' []) (0, 0, 0, 0) ?st
     = writeToProcess 1 ''00000001'' [] (?st\<lparr>calls := 2\<rparr>)"
    using empty_strings_at_dispatch [where p = "write_params ''00000001'' []" and h = example_host
        and b = "(0, 0, 0, 0)" and st = ?st and i = "''00000001''" and r = 0 and call = 1]
    by (simp add: write_params_def st numeral_2_eq_2)
  have 6: "stdin (process (heap (writeToProcess 1 ''00000001'' [] ?st) ! 0)) = [[]]"
    using empty_strings_at_dispatch [where p = "kill_params []" and h = example_host
        and b = "(0, 0, 0, 0)" and st = ?st and i = "''00000001''" and r = 0 and call = 1]
    by (simp add: st)
  from 1 2 3 4 5 6 show ?thesis by blast
qed

subsection \<open>Starts that fail\<close>

lemma dead_resolve [simp]: "dead_child r (resolve call x st) = dead_child r st"
  by (simp add: dead_child_def resolve_def)

lemma dead_setTimeout [simp]: "dead_child r (setTimeout t ms st) = dead_child r st"
  by (simp add: dead_child_def setTimeout_def)

lemma dead_sessions_update [simp]: "dead_child r (st\<lparr>sessions := al\<rparr>) = dead_child r st"
  by (simp add: dead_child_def)

lemma dead_timers_update [simp]: "dead_child r (st\<lparr>timers := ts\<rparr>) = dead_child r st"
  by (simp add: dead_child_def)

lemma dead_writes_update [simp]: "dead_child r (st\<lparr>writes := ws\<rparr>) = dead_child r st"
  by (simp add: dead_child_def)

lemma dead_calls_update [simp]: "dead_child r (st\<lparr>calls := n\<rparr>) = dead_child r st"
  by (simp add: dead_child_def)

lemma dead_clock_update [simp]: "dead_child r (st\<lparr>clock := n\<rparr>) = dead_child r st"
  by (simp add: dead_child_def)

lemma dead_set_process:
  "dead_child r st \<Longrightarrow> (is_dead (process (heap st ! r')) \<Longrightarrow> is_dead p) \<Longrightarrow>
   dead_child r (set_process r' p st)"
proof (cases "r = r'")
  case True
  then show "dead_child r st \<Longrightarrow> (is_dead (process (heap st ! r')) \<Longrightarrow> is_dead p) \<Longrightarrow> ?thesis"
    by (simp add: dead_child_def set_process_def)
next
  case False
  then show "dead_child r st \<Longrightarrow> ?thesis"
    by (simp add: dead_child_def set_process_def)
qed

lemma is_dead_kill: "is_dead p \<Longrightarrow> is_dead (kill sig p)"
  by (simp add: is_dead_def kill_def)

lemma is_dead_exits: "is_dead p \<Longrightarrow> is_dead (exits c p)"
  by (simp add: is_dead_def exits_def)

lemma is_dead_signalled: "is_dead p \<Longrightarrow> is_dead (signalled sig p)"
  by (simp add: is_dead_def signalled_def)

lemma is_dead_after_exit: "signalCode p = None \<Longrightarrow> is_dead (exits c p)"
  by (simp add: is_dead_def exits_def ended_def)

lemma dead_invalid_params [simp]: "dead_child r (invalid_params call m st) = dead_child r st"
  by (simp add: invalid_params_def)

lemma dead_startProcess: "dead_child r st \<Longrightarrow> dead_child r (startProcess h call b c d st)"
  by (simp add: startProcess_def Let_def) (simp add: dead_child_def nth_append)

lemma dead_startProcess_settle:
  "dead_child r st \<Longrightarrow> dead_child r (startProcess_settle call i child st)"
  by (simp add: startProcess_settle_def Let_def)

lemma dead_writeToProcess: "dead_child r st \<Longrightarrow> dead_child r (writeToProcess call i inp st)"
  by (auto simp add: writeToProcess_def Let_def is_dead_def intro!: dead_set_process
      split: option.splits)

lemma dead_written: "dead_child r st \<Longrightarrow> dead_child r (writeToProcess_written call i r' ob err st)"
  by (simp add: writeToProcess_written_def split: option.splits)

lemma dead_write_settle: "dead_child r st \<Longrightarrow> dead_child r (writeToProcess_settle call i r' ob st)"
  by (simp add: writeToProcess_settle_def Let_def)

lemma dead_checkOutput: "dead_child r st \<Longrightarrow> dead_child r (checkOutput call i r' ob t0 tmo st)"
  by (simp add: checkOutput_def Let_def)

lemma dead_readFromProcess: "dead_child r st \<Longrightarrow> dead_child r (readFromProcess call i t st)"
  by (simp add: readFromProcess_def Let_def dead_checkOutput split: option.splits)

lemma dead_killProcess: "dead_child r st \<Longrightarrow> dead_child r (killProcess call i st)"
  by (auto simp add: killProcess_def Let_def intro!: dead_set_process is_dead_kill
      split: option.splits)

lemma dead_escalate: "dead_child r st \<Longrightarrow> dead_child r (killProcess_escalate r' st)"
  by (auto simp add: killProcess_escalate_def Let_def intro!: dead_set_process is_dead_kill)

lemma dead_listSessions: "dead_child r st \<Longrightarrow> dead_child r (listSessions call st)"
  by (simp add: listSessions_def)

lemma dead_cleanup: "dead_child r st \<Longrightarrow> dead_child r (cleanup st)"
  by (simp add: cleanup_def)

lemma dead_processInteractive:
  "dead_child r st \<Longrightarrow> dead_child r (processInteractive h p b st)"
  by (simp add: processInteractive_def Let_def dead_startProcess dead_writeToProcess
      dead_readFromProcess dead_killProcess dead_listSessions split: option.splits)

lemma dead_fire: "dead_child r st \<Longrightarrow> dead_child r (fire t st)"
  by (cases t)
     (simp_all add: dead_startProcess_settle dead_write_settle dead_checkOutput dead_escalate)

lemma dead_step: "dead_child r st \<Longrightarrow> dead_child r (step h st e)"
proof (cases e)
  case (Call p b)
  then show "dead_child r st \<Longrightarrow> ?thesis" by (simp add: dead_processInteractive)
next
  case (Timer n)
  then show "dead_child r st \<Longrightarrow> ?thesis" by (simp add: dead_fire)
next
  case (Written n err)
  then show "dead_child r st \<Longrightarrow> ?thesis" by (simp add: dead_written split: prod.splits)
next
  case (Data r' chunk)
  then show "dead_child r st \<Longrightarrow> ?thesis"
    by (auto simp add: dead_child_def nth_list_update addOutput_def Let_def)
next
  case (Exited r' c)
  then show "dead_child r st \<Longrightarrow> ?thesis" by (simp add: dead_set_process is_dead_exits)
next
  case (Signalled r' sig)
  then show "dead_child r st \<Longrightarrow> ?thesis" by (simp add: dead_set_process is_dead_signalled)
next
  case (SpawnFailed r' c m)
  then show "dead_child r st \<Longrightarrow> ?thesis"
    by (simp add: startProcess_error_def dead_set_process is_dead_exits)
next
  case Cleanup
  then show "dead_child r st \<Longrightarrow> ?thesis" by (simp add: dead_cleanup)
next
  case (Elapse n)
  then show "dead_child r st \<Longrightarrow> ?thesis" by simp
qed

lemma dead_run: "dead_child r st \<Longrightarrow> dead_child r (run h st evs)"
  unfolding run_def by (induction evs arbitrary: st) (simp_all add: dead_step)

lemma dead_after_exit:
  "r < length (heap st) \<Longrightarrow> signalCode (process (heap st ! r)) = None \<Longrightarrow>
   dead_child r (step h st (Exited r c))"
  by (simp add: dead_child_def set_process_def is_dead_after_exit)

lemma dead_after_spawn_failure:
  "r < length (heap st) \<Longrightarrow> signalCode (process (heap st ! r)) = None \<Longrightarrow>
   dead_child r (step h st (SpawnFailed r c m))"
  by (simp add: dead_child_def set_process_def startProcess_error_def resolve_def
      is_dead_after_exit)

text \<open>
  A child that has exited with an exit code, or that could not be spawned, fails the
  test of the 500 ms timer whatever happens in between: the timer's callback answers
  \<open>PROCESS_DIED\<close> with the buffered output and does not touch the \<open>Map\<close>.
\<close>

lemma exited_child_is_not_registered:
  assumes "child < length (heap st)" and "signalCode (process (heap st ! child)) = None"
      and "failure = Exited child c \<or> failure = SpawnFailed child c message"
      and "st' = run h (step h st failure) evs"
      and "n < length (timers st')" and "timers st' ! n = (due, StartSettle call sessionId child)"
      and "due \<le> clock st'"
  shows "step h st' (Timer n)
           = st'\<lparr>timers := remove_nth n (timers st'),
                settled := settled st' @
                  [(call, Failure ''PROCESS_DIED'' ''Process exited immediately''
                            (Some (''output'', join_nl (output (heap st' ! child)))))]\<rparr>"
proof -
  have "dead_child child (step h st failure)"
    using assms(1-3) dead_after_exit dead_after_spawn_failure by blast
  then have "dead_child child st'"
    unfolding assms(4) by (rule dead_run)
  then have "killed (process (heap st' ! child)) \<or> exitCode (process (heap st' ! child)) \<noteq> None"
    by (simp add: dead_child_def is_dead_def)
  with assms(5-7) show ?thesis
    by (simp add: startProcess_settle_def Let_def resolve_def createError_def)
qed

text \<open>
  Claim C7 does not hold of the code for a child that is terminated by a signal. Node
  leaves \<open>exitCode\<close> null for such a child and sets \<open>signalCode\<close>; \<open>killed\<close> stays false
  because the module sent no signal. The test \<open>child.killed || child.exitCode !== null\<close>
  of the 500 ms timer is therefore false: the session of the dead process is registered,
  \<open>start\<close> answers with \<open>is_running: true\<close>, and the periodic cleanup, which uses the
  same test, never removes the entry.
\<close>

theorem signalled_child_is_registered:
  "process (heap (run example_host init
      [Call (start_params ''python -u -i'') (0, 0, 0, 1), Signalled 0 SIGKILL, Elapse 500]) ! 0)
     = \<lparr>killed = False, exitCode = None, signalCode = Some SIGKILL, signals = [], stdin = []\<rparr>
   \<and> sessions (run example_host init
      [Call (start_params ''python -u -i'') (0, 0, 0, 1), Signalled 0 SIGKILL, Elapse 500, Timer 0])
     = [(''00000001'', 0)]
   \<and> promise (run example_host init
      [Call (start_params ''python -u -i'') (0, 0, 0, 1), Signalled 0 SIGKILL, Elapse 500, Timer 0]) 0
     = Some (Reply ''00000001'' [] True)
   \<and> sessions (run example_host init
      [Call (start_params ''python -u -i'') (0, 0, 0, 1), Signalled 0 SIGKILL, Elapse 500, Timer 0,
       Cleanup])
     = [(''00000001'', 0)]"
  by (simp add: evals)

subsection \<open>The session limit\<close>

lemma startProcess_at_capacity:
  "MAX_SESSIONS \<le> length (sessions st) \<Longrightarrow>
   startProcess h call b c d st
     = st\<lparr>settled := settled st @
          [(call, Failure ''LIMIT_EXCEEDED'' ''Maximum 10 sessions allowed. Kill some first.'' None)]\<rparr>"
  by (simp add: startProcess_def resolve_def createError_def)

text \<open>
  Claim C1 does not hold of the code. The limit is checked when \<open>startProcess\<close> is called,
  but a session enters the \<open>Map\<close> only 500 ms later, in the callback of the settle timer,
  which does not check the limit again. Eleven \<open>start\<close> calls issued before the first timer
  fires all pass the check on an empty \<open>Map\<close>, all spawn a process, and all register: the
  \<open>Map\<close> holds 11 sessions and the eleventh call is answered with a running session.
\<close>

theorem eleven_starts_all_register:
  "length (sessions (run example_host init
     ([Call (start_params ''cat'') (0, 0, 0, 0), Call (start_params ''cat'') (0, 0, 0, 1),
       Call (start_params ''cat'') (0, 0, 0, 2), Call (start_params ''cat'') (0, 0, 0, 3),
       Call (start_params ''cat'') (0, 0, 0, 4), Call (start_params ''cat'') (0, 0, 0, 5),
       Call (start_params ''cat'') (0, 0, 0, 6), Call (start_params ''cat'') (0, 0, 0, 7),
       Call (start_params ''cat'') (0, 0, 0, 8), Call (start_params ''cat'') (0, 0, 0, 9),
       Call (start_params ''cat'') (0, 0, 0, 10), Elapse 500,
       Timer 0, Timer 0, Timer 0, Timer 0, Timer 0, Timer 0, Timer 0, Timer 0, Timer 0, Timer 0,
       Timer 0]))) = 11
   \<and> promise (run example_host init
     ([Call (start_params ''cat'') (0, 0, 0, 0), Call (start_params ''cat'') (0, 0, 0, 1),
       Call (start_params ''cat'') (0, 0, 0, 2), Call (start_params ''cat'') (0, 0, 0, 3),
       Call (start_params ''cat'') (0, 0, 0, 4), Call (start_params ''cat'') (0, 0, 0, 5),
       Call (start_params ''cat'') (0, 0, 0, 6), Call (start_params ''cat'') (0, 0, 0, 7),
       Call (start_params ''cat'') (0, 0, 0, 8), Call (start_params ''cat'') (0, 0, 0, 9),
       Call (start_params ''cat'') (0, 0, 0, 10), Elapse 500,
       Timer 0, Timer 0, Timer 0, Timer 0, Timer 0, Timer 0, Timer 0, Timer 0, Timer 0, Timer 0,
       Timer 0])) 10 = Some (Reply ''0000000a'' [] True)
   \<and> MAX_SESSIONS < 11"
  by code_simp

subsection \<open>Reading from a full buffer\<close>

text \<open>
  As long as the buffer only grows while a \<open>read\<close> waits, \<open>checkOutput\<close> does what the
  comment in the code says: it answers with the lines pushed since the mark as soon as
  there are any, or when the process is no longer running, or when the timeout has
  passed, and otherwise looks again in 100 ms.
\<close>

lemma checkOutput_while_buffer_grows:
  assumes "output (heap st ! r) = before @ new" and "length before = outputBefore"
  shows "checkOutput call i r outputBefore startTime timeoutMs st
           = (if new \<noteq> [] \<or> is_dead (process (heap st ! r))
                 \<or> timeoutMs \<le> int (clock st) - int startTime
              then resolve call (Reply i (join_nl new) (\<not> is_dead (process (heap st ! r)))) st
              else setTimeout (ReadPoll call i r outputBefore startTime timeoutMs) 100 st)"
proof -
  have running: "(exitCode (process (heap st ! r)) = None \<and> \<not> killed (process (heap st ! r)))
      = (\<not> is_dead (process (heap st ! r)))"
    by (auto simp add: is_dead_def)
  have "slice_from outputBefore (output (heap st ! r)) = new"
    using assms by (simp add: slice_from_def)
  then show ?thesis
    unfolding checkOutput_def Let_def running by auto
qed

lemma split_on_seps: "split_on sep cur (replicate n sep) = cur # replicate n []"
  by (induction n arbitrary: cur) simp_all

lemma split_nl_newlines: "split_nl (replicate n (CHR 0x0A)) = replicate (Suc n) []"
  by (simp add: split_nl_def split_on_seps)

lemma split_nl_new: "split_nl ''new'' = [''new'']"
  by (simp add: split_nl_def)

text \<open>
  Claim C4 does not hold of the code once the buffer is full. The session has 1000 lines
  buffered when \<open>read\<close> is called with a timeout of 200 ms, so the mark is 1000. The chunk
  \<open>new\<close> arrives; \<open>addOutput\<close> pushes it and trims the buffer back to 1000 lines, with
  \<open>new\<close> as the last line. \<open>slice(1000)\<close> of that buffer is empty: the poll at 100 ms
  does not return although new content has appeared since the mark, and the poll at
  200 ms returns the empty string instead of the content appended since the mark.
\<close>

theorem read_blind_when_buffer_full:
  "length (output (heap (run example_host init
      (one_session @ [Data 0 (replicate 999 (CHR 0x0A))])) ! 0)) = 1000
   \<and> output (heap (run example_host init
      (one_session @
       [Data 0 (replicate 999 (CHR 0x0A)),
        Call (read_params ''00000001'' (Some 200)) (0, 0, 0, 0),
        Data 0 ''new''])) ! 0) = replicate 999 [] @ [''new'']
   \<and> promise (run example_host init
      (one_session @
       [Data 0 (replicate 999 (CHR 0x0A)),
        Call (read_params ''00000001'' (Some 200)) (0, 0, 0, 0),
        Data 0 ''new'', Elapse 100, Timer 0])) 1 = None
   \<and> promise (run example_host init
      (one_session @
       [Data 0 (replicate 999 (CHR 0x0A)),
        Call (read_params ''00000001'' (Some 200)) (0, 0, 0, 0),
        Data 0 ''new'', Elapse 100, Timer 0, Elapse 100, Timer 0])) 1
       = Some (Reply ''00000001'' [] True)"
  by (simp add: evals split_nl_newlines split_nl_new)

subsection \<open>The output returned by read and write\<close>

text \<open>
  Only the \<open>data\<close> handlers change the buffer of a session object. Every other callback
  of the module leaves it as it is, so after any sequence of events the buffer of
  session object \<open>r\<close> is the buffer before, with the chunks of its child pushed by
  \<open>addOutput\<close> in the order of arrival.
\<close>

subsection \<open>What each callback does to the buffers\<close>

lemma buffer_resolve [simp]: "buffer_is r B (resolve call x st) = buffer_is r B st"
  by (simp add: buffer_is_def resolve_def)

lemma buffer_setTimeout [simp]: "buffer_is r B (setTimeout t ms st) = buffer_is r B st"
  by (simp add: buffer_is_def setTimeout_def)

lemma buffer_sessions_update [simp]: "buffer_is r B (st\<lparr>sessions := al\<rparr>) = buffer_is r B st"
  by (simp add: buffer_is_def)

lemma buffer_timers_update [simp]: "buffer_is r B (st\<lparr>timers := ts\<rparr>) = buffer_is r B st"
  by (simp add: buffer_is_def)

lemma buffer_writes_update [simp]: "buffer_is r B (st\<lparr>writes := ws\<rparr>) = buffer_is r B st"
  by (simp add: buffer_is_def)

lemma buffer_calls_update [simp]: "buffer_is r B (st\<lparr>calls := n\<rparr>) = buffer_is r B st"
  by (simp add: buffer_is_def)

lemma buffer_clock_update [simp]: "buffer_is r B (st\<lparr>clock := n\<rparr>) = buffer_is r B st"
  by (simp add: buffer_is_def)

lemma buffer_set_process [simp]: "buffer_is r B (set_process r' p st) = buffer_is r B st"
  by (cases "r = r'") (auto simp add: buffer_is_def set_process_def)

lemma buffer_invalid_params [simp]: "buffer_is r B (invalid_params call m st) = buffer_is r B st"
  by (simp add: invalid_params_def)


lemma buffer_startProcess_settle [simp]:
  "buffer_is r B (startProcess_settle call i child st) = buffer_is r B st"
  by (simp add: startProcess_settle_def Let_def)

lemma buffer_writeToProcess [simp]:
  "buffer_is r B (writeToProcess call i inp st) = buffer_is r B st"
  by (simp add: writeToProcess_def Let_def split: option.splits)

lemma buffer_written [simp]:
  "buffer_is r B (writeToProcess_written call i r' ob err st) = buffer_is r B st"
  by (simp add: writeToProcess_written_def split: option.splits)

lemma buffer_write_settle [simp]:
  "buffer_is r B (writeToProcess_settle call i r' ob st) = buffer_is r B st"
  by (simp add: writeToProcess_settle_def Let_def)

lemma buffer_checkOutput [simp]:
  "buffer_is r B (checkOutput call i r' ob t0 tmo st) = buffer_is r B st"
  by (simp add: checkOutput_def Let_def)

lemma buffer_readFromProcess [simp]:
  "buffer_is r B (readFromProcess call i t st) = buffer_is r B st"
  by (simp add: readFromProcess_def Let_def split: option.splits)

lemma buffer_killProcess [simp]: "buffer_is r B (killProcess call i st) = buffer_is r B st"
  by (simp add: killProcess_def Let_def split: option.splits)

lemma buffer_escalate [simp]: "buffer_is r B (killProcess_escalate r' st) = buffer_is r B st"
  by (simp add: killProcess_escalate_def Let_def)

lemma buffer_listSessions [simp]: "buffer_is r B (listSessions call st) = buffer_is r B st"
  by (simp add: listSessions_def)

lemma buffer_cleanup [simp]: "buffer_is r B (cleanup st) = buffer_is r B st"
  by (simp add: cleanup_def buffer_is_def)


lemma buffer_fire [simp]: "buffer_is r B (fire t st) = buffer_is r B st"
  by (cases t) simp_all













lemma split_on_not_Nil [simp]: "split_on sep cur s \<noteq> []"
  by (induction s arbitrary: cur) simp_all








subsection \<open>Escalation after kill\<close>

text \<open>
  \<open>killProcess\<close> on a registered session with a running process sends \<open>SIGTERM\<close>, which
  sets \<open>killed\<close>; and whenever \<open>killed\<close> is set, the callback of the escalation timer does
  nothing.
\<close>

lemma killProcess_sets_killed:
  assumes "map_of (sessions st) i = Some r" and "r < length (heap st)"
      and "\<not> is_dead (process (heap st ! r))" and "signalCode (process (heap st ! r)) = None"
  shows "process (heap (killProcess call i st) ! r)
           = (process (heap st ! r))\<lparr>killed := True,
                signals := signals (process (heap st ! r)) @ [SIGTERM]\<rparr>
       \<and> timers (killProcess call i st) = timers st @ [(clock st + 1000, KillEscalate r)]"
  using assms
  by (simp add: killProcess_def is_dead_def Let_def resolve_def setTimeout_def set_process_def
      kill_def ended_def)

lemma escalate_after_signal:
  "killed (process (heap st ! r)) \<Longrightarrow> killProcess_escalate r st = st"
  by (simp add: killProcess_escalate_def)

text \<open>
  Claim C6 does not hold of the code. \<open>killProcess\<close> on a registered, running session
  delivers \<open>SIGTERM\<close> at once and arms the 1000 ms timer, but delivering the signal sets
  \<open>killed\<close>, and the timer's callback sends \<open>SIGKILL\<close> only if \<open>killed\<close> is false. The
  process here ignores \<open>SIGTERM\<close>: after the timer has fired it has still not exited and
  \<open>SIGTERM\<close> is the only signal it was ever sent.
\<close>

theorem kill_never_escalates:
  "process (heap (run example_host init
      (one_session @ [Call (kill_params ''00000001'') (0, 0, 0, 0)])) ! 0)
     = \<lparr>killed = True, exitCode = None, signalCode = None, signals = [SIGTERM], stdin = []\<rparr>
   \<and> timers (run example_host init
      (one_session @ [Call (kill_params ''00000001'') (0, 0, 0, 0)])) = [(1500, KillEscalate 0)]
   \<and> process (heap (run example_host init
      (one_session @ [Call (kill_params ''00000001'') (0, 0, 0, 0), Elapse 1000, Timer 0])) ! 0)
     = \<lparr>killed = True, exitCode = None, signalCode = None, signals = [SIGTERM], stdin = []\<rparr>
   \<and> timers (run example_host init
      (one_session @ [Call (kill_params ''00000001'') (0, 0, 0, 0), Elapse 1000, Timer 0])) = []"
  by (simp add: evals)

end
